theory Spec2Isabelle
  imports Main "HOL-Library.Sublist"
begin

section \<open>The host page\<close>

text \<open>
  \<^verbatim>\<open>script.js\<close> registers one function for \<^verbatim>\<open>DOMContentLoaded\<close>. That function logs a
  line, looks two elements up by id and, when both exist, attaches a click listener to the
  first; the listener overwrites the \<^verbatim>\<open>innerHTML\<close> of the second.

  The page is modelled as far as the script can see it: the elements in document order,
  each with its id, its \<^verbatim>\<open>innerHTML\<close> (the string last assigned) and its click listeners
  in the order they were added, and the lines written to the console. An element reference
  is the element's position in the list. Nesting of elements and the parsing of the markup
  assigned to \<^verbatim>\<open>innerHTML\<close> are not modelled.

  The only function value the script ever creates as a click listener is the closure of
  lines 10 to 12; it captures the constant \<^verbatim>\<open>output\<close>, which holds an element reference or
  \<^verbatim>\<open>null\<close> (\<open>None\<close>).
\<close>

datatype error = TypeError

datatype listener = ClickGreeter "nat option"

record element =
  ident :: string
  innerHTML :: string
  listeners :: "listener list"

record page =
  elements :: "element list"
  console :: "string list"

type_synonym 'a result = "error + 'a"

text \<open>
  \<^verbatim>\<open>document.getElementById(id)\<close>: the first element in document order with that id, or
  \<^verbatim>\<open>null\<close>.
\<close>

fun find_id :: "string \<Rightarrow> element list \<Rightarrow> nat option" where
  "find_id i [] = None"
| "find_id i (e # es) = (if ident e = i then Some 0 else map_option Suc (find_id i es))"

definition getElementById :: "page \<Rightarrow> string \<Rightarrow> nat option" where
  "getElementById pg i = find_id i (elements pg)"

definition update_element :: "nat \<Rightarrow> (element \<Rightarrow> element) \<Rightarrow> element list \<Rightarrow> element list" where
  "update_element r f es = (if r < length es then es[r := f (es ! r)] else es)"

definition console_log :: "string \<Rightarrow> page \<Rightarrow> page" where
  "console_log s pg = pg\<lparr>console := console pg @ [s]\<rparr>"

text \<open>
  A method call or a property assignment on \<^verbatim>\<open>null\<close> throws a \<^verbatim>\<open>TypeError\<close>; on an
  element, \<^verbatim>\<open>addEventListener\<close> appends the listener and the assignment to \<^verbatim>\<open>innerHTML\<close>
  replaces the whole content.
\<close>

fun addEventListener :: "nat option \<Rightarrow> listener \<Rightarrow> page \<Rightarrow> page result" where
  "addEventListener None l pg = Inl TypeError"
| "addEventListener (Some r) l pg =
     Inr (pg\<lparr>elements := update_element r (\<lambda>e. e\<lparr>listeners := listeners e @ [l]\<rparr>) (elements pg)\<rparr>)"

fun set_innerHTML :: "nat option \<Rightarrow> string \<Rightarrow> page \<Rightarrow> page result" where
  "set_innerHTML None s pg = Inl TypeError"
| "set_innerHTML (Some r) s pg =
     Inr (pg\<lparr>elements := update_element r (\<lambda>e. e\<lparr>innerHTML := s\<rparr>) (elements pg)\<rparr>)"

section \<open>The script\<close>

text \<open>
  The function registered for \<^verbatim>\<open>DOMContentLoaded\<close> (lines 2 to 14). In JavaScript an
  element reference is truthy and \<^verbatim>\<open>null\<close> is falsy, so the guard of line 9 is the test
  that both lookups succeeded.
\<close>

definition init :: "page \<Rightarrow> page result" where
  "init pg =
     (let pg1 = console_log ''Habit Tracker Pro loaded successfully!'' pg;
          mainButton = getElementById pg1 ''mainButton'';
          output = getElementById pg1 ''output''
      in if mainButton \<noteq> None \<and> output \<noteq> None
         then addEventListener mainButton (ClickGreeter output) pg1
         else Inr pg1)"

text \<open>
  The markup of line 11. \<^verbatim>\<open>new Date().toLocaleTimeString()\<close> belongs to the host: the clock
  reading \<open>t\<close> (milliseconds since the epoch, as a \<^verbatim>\<open>Date\<close> holds it) comes with the event and
  the formatter \<open>toLocaleTimeString\<close>, whose locale and time zone are the host's, is a
  parameter.
\<close>

definition greeting :: "(int \<Rightarrow> string) \<Rightarrow> int \<Rightarrow> string" where
  "greeting toLocaleTimeString t =
     ''<p>Hello from Habit Tracker Pro! Button clicked at '' @ toLocaleTimeString t @ ''</p>''"

fun run_listener :: "(int \<Rightarrow> string) \<Rightarrow> int \<Rightarrow> listener \<Rightarrow> page \<Rightarrow> page result" where
  "run_listener toLocaleTimeString t (ClickGreeter output) pg =
     set_innerHTML output (greeting toLocaleTimeString t) pg"

text \<open>
  A click runs the listeners of the target in the order they were added. An exception
  thrown by a listener is an uncaught error; the model stops there and returns it.
\<close>

fun dispatch :: "(int \<Rightarrow> string) \<Rightarrow> int \<Rightarrow> listener list \<Rightarrow> page \<Rightarrow> page result" where
  "dispatch toLocaleTimeString t [] pg = Inr pg"
| "dispatch toLocaleTimeString t (l # ls) pg =
     (case run_listener toLocaleTimeString t l pg of
        Inl e \<Rightarrow> Inl e
      | Inr pg' \<Rightarrow> dispatch toLocaleTimeString t ls pg')"

text \<open>
  One activation of the control at clock reading \<open>t\<close>. A page without the control offers
  nothing to activate.
\<close>

definition click :: "(int \<Rightarrow> string) \<Rightarrow> int \<Rightarrow> page \<Rightarrow> page result" where
  "click toLocaleTimeString t pg =
     (case getElementById pg ''mainButton'' of
        None \<Rightarrow> Inr pg
      | Some b \<Rightarrow>
          if b < length (elements pg)
          then dispatch toLocaleTimeString t (listeners (elements pg ! b)) pg
          else Inr pg)"

fun clicks :: "(int \<Rightarrow> string) \<Rightarrow> int list \<Rightarrow> page \<Rightarrow> page result" where
  "clicks toLocaleTimeString [] pg = Inr pg"
| "clicks toLocaleTimeString (t # ts) pg =
     (case click toLocaleTimeString t pg of
        Inl e \<Rightarrow> Inl e
      | Inr pg' \<Rightarrow> clicks toLocaleTimeString ts pg')"

text \<open>
  The life of a page: the host fires \<^verbatim>\<open>DOMContentLoaded\<close> once, then the user activates the
  control at the clock readings \<open>ts\<close>.
\<close>

definition session :: "(int \<Rightarrow> string) \<Rightarrow> page \<Rightarrow> int list \<Rightarrow> page result" where
  "session toLocaleTimeString pg ts =
     (case init pg of
        Inl e \<Rightarrow> Inl e
      | Inr pg1 \<Rightarrow> clicks toLocaleTimeString ts pg1)"

section \<open>Observations\<close>

text \<open>The content of the display target, when the page has one.\<close>

definition display :: "page \<Rightarrow> string option" where
  "display pg =
     (case getElementById pg ''output'' of
        None \<Rightarrow> None
      | Some r \<Rightarrow> if r < length (elements pg) then Some (innerHTML (elements pg ! r)) else None)"

definition shown :: "page result \<Rightarrow> string option" where
  "shown res = (case res of Inl e \<Rightarrow> None | Inr pg \<Rightarrow> display pg)"

text \<open>Both required elements are in the document.\<close>

definition both_present :: "page \<Rightarrow> bool" where
  "both_present pg \<longleftrightarrow>
     getElementById pg ''mainButton'' \<noteq> None \<and> getElementById pg ''output'' \<noteq> None"

text \<open>
  A page as the host hands it to the script: no click listener has been added yet.
\<close>

definition fresh :: "page \<Rightarrow> bool" where
  "fresh pg \<longleftrightarrow> list_all (\<lambda>e. listeners e = []) (elements pg)"

text \<open>The two states of the component: whether the control carries a click listener.\<close>

datatype binding = Unbound | Bound

definition state_of :: "page \<Rightarrow> binding" where
  "state_of pg =
     (case getElementById pg ''mainButton'' of
        None \<Rightarrow> Unbound
      | Some b \<Rightarrow>
          if b < length (elements pg) \<and> listeners (elements pg ! b) \<noteq> [] then Bound else Unbound)"

text \<open>The display target shows a text that contains \<open>s\<close>.\<close>

definition display_contains :: "string \<Rightarrow> page result \<Rightarrow> bool" where
  "display_contains s res = (case shown res of None \<Rightarrow> False | Some c \<Rightarrow> sublist s c)"

text \<open>
  The handler is attached: the control \<open>b\<close> carries exactly the closure over the display
  target \<open>out\<close>.
\<close>

definition bound_to :: "nat \<Rightarrow> nat \<Rightarrow> page \<Rightarrow> bool" where
  "bound_to b out pg \<longleftrightarrow>
     getElementById pg ''mainButton'' = Some b \<and> getElementById pg ''output'' = Some out \<and>
     listeners (elements pg ! b) = [ClickGreeter (Some out)]"

section \<open>A host formatter\<close>

text \<open>
  What \<^verbatim>\<open>toLocaleTimeString\<close> returns is the host's choice. The formatter below is one such
  choice, used where a statement needs a concrete host: the time of day in the zone UTC,
  on a 12-hour clock, the hour without a leading zero, as in \<^verbatim>\<open>3:45:12 PM\<close>.
\<close>

definition seconds_of_day :: "int \<Rightarrow> nat" where
  "seconds_of_day t = nat ((t div 1000) mod 86400)"

definition digit :: "nat \<Rightarrow> char" where
  "digit d = ''0123456789'' ! (d mod 10)"

definition two_digits :: "nat \<Rightarrow> string" where
  "two_digits n = [digit (n div 10), digit n]"

definition hour12 :: "nat \<Rightarrow> string" where
  "hour12 h = (let k = (if h mod 12 = 0 then 12 else h mod 12)
               in if k < 10 then [digit k] else two_digits k)"

definition time_of_day :: "nat \<Rightarrow> string" where
  "time_of_day s =
     (let h = s div 3600; m = (s div 60) mod 60; c = s mod 60
      in hour12 h @ '':'' @ two_digits m @ '':'' @ two_digits c @
         (if h < 12 then '' AM'' else '' PM''))"

definition toLocaleTimeString_enUS :: "int \<Rightarrow> string" where
  "toLocaleTimeString_enUS t = time_of_day (seconds_of_day t)"

text \<open>
  A formatter has second-level resolution when clock readings that fall on different
  seconds of the day get different strings.
\<close>

definition second_resolution :: "(int \<Rightarrow> string) \<Rightarrow> bool" where
  "second_resolution toLocaleTimeString \<longleftrightarrow>
     (\<forall>a b. toLocaleTimeString a = toLocaleTimeString b \<longrightarrow> seconds_of_day a = seconds_of_day b)"

section \<open>Sample documents\<close>

definition demo_page :: page where
  "demo_page =
     \<lparr>elements =
        [\<lparr>ident = ''mainButton'', innerHTML = ''Click Me!'', listeners = []\<rparr>,
         \<lparr>ident = ''output'', innerHTML = [], listeners = []\<rparr>],
      console = []\<rparr>"

definition page_without_output :: page where
  "page_without_output =
     \<lparr>elements = [\<lparr>ident = ''mainButton'', innerHTML = ''Click Me!'', listeners = []\<rparr>],
      console = []\<rparr>"

definition stale_page :: page where
  "stale_page =
     \<lparr>elements =
        [\<lparr>ident = ''output'', innerHTML = ''<p>stale</p>'', listeners = []\<rparr>,
         \<lparr>ident = ''title'', innerHTML = ''Habit Tracker Pro'', listeners = []\<rparr>,
         \<lparr>ident = ''mainButton'', innerHTML = ''Click Me!'', listeners = []\<rparr>],
      console = [''ready'']\<rparr>"

section \<open>Lookups and updates\<close>


lemma find_id_Some: "find_id i es = Some r \<Longrightarrow> r < length es \<and> ident (es ! r) = i"
  by (induction es arbitrary: r) (auto split: if_splits)

lemma find_id_cong: "map ident es = map ident es' \<Longrightarrow> find_id i es = find_id i es'"
proof (induction es arbitrary: es')
  case Nil
  then show ?case by simp
next
  case (Cons e es)
  then obtain e' es'' where "es' = e' # es''" by (cases es') auto
  with Cons show ?case by auto
qed

lemma length_update_element [simp]: "length (update_element r f es) = length es"
  by (simp add: update_element_def)

lemma map_ident_update_element:
  "(\<And>e. ident (f e) = ident e) \<Longrightarrow> map ident (update_element r f es) = map ident es"
  by (simp add: update_element_def map_update list_update_same_conv)

lemma nth_update_element:
  "j < length es \<Longrightarrow> update_element r f es ! j = (if j = r then f (es ! j) else es ! j)"
  by (simp add: update_element_def)

lemma set_innerHTML_ids:
  "getElementById (pg\<lparr>elements := update_element r (\<lambda>e. e\<lparr>innerHTML := s\<rparr>) (elements pg)\<rparr>) i = getElementById pg i"
  unfolding getElementById_def by (rule find_id_cong) (simp add: map_ident_update_element)

lemma click_bound:
  assumes "bound_to b out pg"
  shows "\<exists>pg'. click f t pg = Inr pg' \<and> bound_to b out pg' \<and> display pg' = Some (greeting f t)
     \<and> console pg' = console pg"
proof -
  from assms have b: "getElementById pg ''mainButton'' = Some b"
    and out: "getElementById pg ''output'' = Some out"
    and ls: "listeners (elements pg ! b) = [ClickGreeter (Some out)]"
    by (simp_all add: bound_to_def)
  from b have bl: "b < length (elements pg)" by (simp add: getElementById_def find_id_Some)
  from out have ol: "out < length (elements pg)" by (simp add: getElementById_def find_id_Some)
  let ?pg = "pg\<lparr>elements := update_element out (\<lambda>e. e\<lparr>innerHTML := greeting f t\<rparr>) (elements pg)\<rparr>"
  have c: "click f t pg = Inr ?pg" by (simp add: click_def b bl ls)
  have "bound_to b out ?pg"
    unfolding bound_to_def using b out ls bl by (auto simp add: set_innerHTML_ids nth_update_element)
  moreover have "display ?pg = Some (greeting f t)"
    unfolding display_def using out ol by (simp add: set_innerHTML_ids nth_update_element)
  ultimately show ?thesis using c by simp
qed

lemma clicks_bound:
  "bound_to b out pg \<Longrightarrow> \<exists>pg'. clicks f ts pg = Inr pg' \<and> bound_to b out pg' \<and>
      display pg' = (if ts = [] then display pg else Some (greeting f (last ts))) \<and> console pg' = console pg"
proof (induction ts arbitrary: pg)
  case Nil
  then show ?case by simp
next
  case (Cons t ts)
  from click_bound[OF Cons.prems, of f t] obtain pg1 where
    1: "click f t pg = Inr pg1" "bound_to b out pg1" "display pg1 = Some (greeting f t)" "console pg1 = console pg"
    by blast
  from Cons.IH[OF 1(2)] obtain pg' where
    2: "clicks f ts pg1 = Inr pg'" "bound_to b out pg'"
       "display pg' = (if ts = [] then display pg1 else Some (greeting f (last ts)))" "console pg' = console pg1"
    by blast
  show ?case using 1 2 by auto
qed

lemma init_bound:
  assumes "fresh pg" "both_present pg"
  shows "\<exists>pg1 b out. init pg = Inr pg1 \<and> bound_to b out pg1"
proof -
  let ?pg = "console_log ''Habit Tracker Pro loaded successfully!'' pg"
  from assms(2) obtain b out where b: "getElementById ?pg ''mainButton'' = Some b"
    and out: "getElementById ?pg ''output'' = Some out"
    by (auto simp: both_present_def getElementById_def console_log_def)
  have bl: "b < length (elements pg)" and bi: "ident (elements pg ! b) = ''mainButton''"
    using b by (auto simp add: getElementById_def console_log_def dest: find_id_Some)
  from assms(1) bl have nol: "listeners (elements pg ! b) = []"
    by (simp add: fresh_def list_all_length)
  let ?pg1 = "?pg\<lparr>elements := update_element b (\<lambda>e. e\<lparr>listeners := listeners e @ [ClickGreeter (Some out)]\<rparr>) (elements ?pg)\<rparr>"
  have i: "init pg = Inr ?pg1" by (simp add: init_def Let_def b out)
  have ids: "getElementById ?pg1 k = getElementById ?pg k" for k
    unfolding getElementById_def by (rule find_id_cong) (simp add: map_ident_update_element)
  have els: "elements ?pg = elements pg" by (simp add: console_log_def)
  have "listeners (elements ?pg1 ! b) = [ClickGreeter (Some out)]"
    using bl nol by (simp add: els nth_update_element)
  then have "bound_to b out ?pg1" unfolding bound_to_def
    using b out by (simp only: ids)
  with i show ?thesis by blast
qed

section \<open>The sample formatter has second-level resolution\<close>


lemma digit_code: "n < 10 \<Longrightarrow> (of_char (digit n) :: nat) = 48 + n"
proof -
  assume "n < 10"
  then have "n \<in> set [0, 1, 2, 3, 4, 5, 6, 7, 8, 9]"
    unfolding list.set insert_iff empty_iff by arith
  moreover have "\<forall>k \<in> set [0, 1, 2, 3, 4, 5, 6, 7, 8, 9]. (of_char (digit k) :: nat) = 48 + k"
    by (simp add: digit_def)
  ultimately show ?thesis by blast
qed

lemma digit_inj: "digit a = digit b \<Longrightarrow> a mod 10 = b mod 10"
proof -
  assume "digit a = digit b"
  then have "digit (a mod 10) = digit (b mod 10)" by (simp add: digit_def)
  then have "(of_char (digit (a mod 10)) :: nat) = of_char (digit (b mod 10))" by simp
  then show ?thesis by (simp add: digit_code)
qed

lemma two_digits_inj:
  assumes "two_digits a = two_digits b" "a < 100" "b < 100"
  shows "a = b"
proof -
  from assms(1) have hi: "digit (a div 10) = digit (b div 10)" and lo: "digit a = digit b"
    by (simp_all add: two_digits_def)
  have "(a div 10) mod 10 = (b div 10) mod 10" using hi by (rule digit_inj)
  moreover have m: "a mod 10 = b mod 10" using lo by (rule digit_inj)
  moreover from assms(2,3) have "a div 10 < 10" "b div 10 < 10" by simp_all
  ultimately have d: "a div 10 = b div 10" by simp
  have "a = 10 * (a div 10) + a mod 10" by simp
  also have "\<dots> = 10 * (b div 10) + b mod 10" by (simp only: d m)
  also have "\<dots> = b" by simp
  finally show ?thesis .
qed

lemma length_hour12: "length (hour12 h) = (if h mod 12 = 0 \<or> 10 \<le> h mod 12 then 2 else 1)"
  by (auto simp: hour12_def two_digits_def Let_def)

lemma hour12_inj:
  assumes "hour12 h = hour12 k"
  shows "h mod 12 = k mod 12"
proof -
  let ?h = "if h mod 12 = 0 then 12 else h mod 12"
  let ?k = "if k mod 12 = 0 then 12 else k mod 12"
  have lh: "?h < 100" and lk: "?k < 100" by auto
  from assms have len: "length (hour12 h) = length (hour12 k)" by simp
  have "?h = ?k"
  proof (cases "?h < 10")
    case True
    with len have k: "?k < 10" by (auto simp: length_hour12 split: if_splits)
    from True k assms have "digit ?h = digit ?k" by (simp add: hour12_def Let_def)
    then have "?h mod 10 = ?k mod 10" by (rule digit_inj)
    with True k show ?thesis by simp
  next
    case False
    with len have k: "\<not> ?k < 10" by (auto simp: length_hour12 split: if_splits)
    from False k assms have "two_digits ?h = two_digits ?k" by (simp add: hour12_def Let_def)
    then show ?thesis using lh lk by (rule two_digits_inj)
  qed
  then show ?thesis by (auto split: if_splits)
qed


lemma hms: "(s::nat) = 3600 * (s div 3600) + 60 * ((s div 60) mod 60) + s mod 60"
proof -
  define q d m where "q = s div 60" and "d = q div 60" and "m = q mod 60"
  have h: "s div 3600 = d" by (simp add: q_def d_def div_mult2_eq)
  have "q = 60 * d + m" by (simp add: d_def m_def)
  then have "3600 * d + 60 * m = 60 * q" by simp
  moreover have "s = 60 * q + s mod 60" by (simp add: q_def)
  ultimately have "s = 3600 * d + 60 * m + s mod 60" by simp
  then show ?thesis by (simp only: h m_def q_def)
qed

lemma hour_eq:
  assumes "h mod 12 = k mod 12" "h < 24" "k < 24" "(h < 12) = (k < 12)"
  shows "h = (k::nat)"
proof (cases "h < 12")
  case True
  with assms show ?thesis by simp
next
  case False
  with assms(4) have "12 \<le> h" "12 \<le> k" by simp_all
  with assms(1) have "(h - 12) mod 12 = (k - 12) mod 12" by (simp add: le_mod_geq)
  moreover from assms(2,3) have "h - 12 < 12" "k - 12 < 12" by simp_all
  ultimately have "h - 12 = k - 12" by simp
  with \<open>12 \<le> h\<close> \<open>12 \<le> k\<close> show ?thesis by simp
qed

lemma hour_bound: "s < 86400 \<Longrightarrow> s div 3600 < (24::nat)"
  by (simp add: div_less_iff_less_mult)

lemma tail_eq:
  assumes "'':'' @ two_digits m @ '':'' @ two_digits c @ (if p then '' AM'' else '' PM'') =
           '':'' @ two_digits m' @ '':'' @ two_digits c' @ (if p' then '' AM'' else '' PM'')"
  shows "two_digits m = two_digits m' \<and> two_digits c = two_digits c' \<and> p = p'"
  using assms by (cases p; cases p') (simp_all add: two_digits_def)

lemma time_of_day_inj:
  assumes eq: "time_of_day s = time_of_day s'" and s: "s < 86400" and s': "s' < 86400"
  shows "s = s'"
proof -
  let ?tail = "\<lambda>s. '':'' @ two_digits ((s div 60) mod 60) @ '':'' @ two_digits (s mod 60) @
         (if s div 3600 < 12 then '' AM'' else '' PM'')"
  have split: "time_of_day x = hour12 (x div 3600) @ ?tail x" for x
    by (simp add: time_of_day_def Let_def)
  have len: "length (?tail s) = length (?tail s')" by (simp add: two_digits_def)
  from eq have "hour12 (s div 3600) @ ?tail s = hour12 (s' div 3600) @ ?tail s'"
    by (simp only: split)
  then have "hour12 (s div 3600) = hour12 (s' div 3600) \<and> ?tail s = ?tail s'"
    by (rule iffD1[OF append_eq_append_conv[OF disjI2[OF len]]])
  then have h: "hour12 (s div 3600) = hour12 (s' div 3600)" and t: "?tail s = ?tail s'"
    by blast+
  from tail_eq[OF t] have m: "two_digits ((s div 60) mod 60) = two_digits ((s' div 60) mod 60)"
    and c: "two_digits (s mod 60) = two_digits (s' mod 60)"
    and ap: "(s div 3600 < 12) = (s' div 3600 < 12)"
    by blast+
  have m': "(s div 60) mod 60 = (s' div 60) mod 60" by (rule two_digits_inj[OF m]) simp_all
  have c': "s mod 60 = s' mod 60" by (rule two_digits_inj[OF c]) simp_all
  from h have "(s div 3600) mod 12 = (s' div 3600) mod 12" by (rule hour12_inj)
  then have h': "s div 3600 = s' div 3600"
    using hour_bound[OF s] hour_bound[OF s'] ap by (rule hour_eq)
  have "s = 3600 * (s div 3600) + 60 * ((s div 60) mod 60) + s mod 60" by (rule hms)
  also have "\<dots> = 3600 * (s' div 3600) + 60 * ((s' div 60) mod 60) + s' mod 60"
    by (simp only: h' m' c')
  also have "\<dots> = s'" by (rule hms[symmetric])
  finally show ?thesis .
qed

lemma second_resolution_enUS: "second_resolution toLocaleTimeString_enUS"
  unfolding second_resolution_def toLocaleTimeString_enUS_def
proof (intro allI impI)
  fix a b :: int
  assume "time_of_day (seconds_of_day a) = time_of_day (seconds_of_day b)"
  moreover have "seconds_of_day x < 86400" for x by (simp add: seconds_of_day_def nat_less_iff)
  ultimately show "seconds_of_day a = seconds_of_day b" by (blast intro: time_of_day_inj)
qed

lemma seconds_of_day_apart:
  assumes lo: "1000 \<le> t2 - t1" and hi: "t2 - t1 \<le> 86399000"
  shows "seconds_of_day t1 \<noteq> seconds_of_day t2"
proof
  assume "seconds_of_day t1 = seconds_of_day t2"
  then have "(t2 div 1000) mod 86400 = (t1 div 1000) mod 86400"
    by (simp add: seconds_of_day_def eq_nat_nat_iff)
  then have dvd: "86400 dvd t2 div 1000 - t1 div 1000"
    by (simp add: mod_eq_dvd_iff)
  from lo have "(t1 + 1000) div 1000 \<le> t2 div 1000" by (intro zdiv_mono1) simp_all
  then have 1: "0 < t2 div 1000 - t1 div 1000" by simp
  from hi have "t2 div 1000 \<le> (t1 + 86399000) div 1000" by (intro zdiv_mono1) simp_all
  then have 2: "t2 div 1000 - t1 div 1000 < 86400" by simp
  from 1 2 dvd show False by (simp add: zdvd_not_zless)
qed

section \<open>Initialisation and activation\<close>

lemma init_absent:
  "\<not> both_present pg \<Longrightarrow> init pg = Inr (console_log ''Habit Tracker Pro loaded successfully!'' pg)"
  by (auto simp: init_def both_present_def getElementById_def console_log_def Let_def)

lemma init_present:
  assumes "both_present pg"
  shows "\<exists>b out. getElementById pg ''mainButton'' = Some b \<and> getElementById pg ''output'' = Some out \<and>
     init pg = Inr (pg\<lparr>console := console pg @ [''Habit Tracker Pro loaded successfully!''],
       elements := update_element b (\<lambda>e. e\<lparr>listeners := listeners e @ [ClickGreeter (Some out)]\<rparr>) (elements pg)\<rparr>)"
  using assms
  by (auto simp: init_def both_present_def getElementById_def console_log_def Let_def)

lemma map_innerHTML_add_listener:
  "map innerHTML (update_element b (\<lambda>e. e\<lparr>listeners := listeners e @ [l]\<rparr>) es) = map innerHTML es"
  by (simp add: update_element_def map_update list_update_same_conv)

lemma display_cong:
  assumes "map ident (elements pg') = map ident (elements pg)"
    and "map innerHTML (elements pg') = map innerHTML (elements pg)"
  shows "display pg' = display pg"
proof -
  have l: "length (elements pg') = length (elements pg)"
    using assms(1) by (rule map_eq_imp_length_eq)
  have g: "getElementById pg' ''output'' = getElementById pg ''output''"
    unfolding getElementById_def using assms(1) by (rule find_id_cong)
  have "innerHTML (elements pg' ! r) = innerHTML (elements pg ! r)" if "r < length (elements pg)" for r
    using that l assms(2) by (metis nth_map)
  then show ?thesis by (auto simp: display_def g l split: option.splits)
qed

lemma init_frame:
  assumes "init pg = Inr pg1"
  shows "console pg1 = console pg @ [''Habit Tracker Pro loaded successfully!'']"
    and "map ident (elements pg1) = map ident (elements pg)"
    and "map innerHTML (elements pg1) = map innerHTML (elements pg)"
proof -
  show "console pg1 = console pg @ [''Habit Tracker Pro loaded successfully!'']"
  proof (cases "both_present pg")
    case True
    from init_present[OF this] assms show ?thesis by auto
  next
    case False
    from init_absent[OF this] assms show ?thesis by (auto simp: console_log_def)
  qed
  show "map ident (elements pg1) = map ident (elements pg)"
  proof (cases "both_present pg")
    case True
    from init_present[OF this] assms show ?thesis by (auto simp: map_ident_update_element)
  next
    case False
    from init_absent[OF this] assms show ?thesis by (auto simp: console_log_def)
  qed
  show "map innerHTML (elements pg1) = map innerHTML (elements pg)"
  proof (cases "both_present pg")
    case True
    from init_present[OF this] assms show ?thesis by (auto simp: map_innerHTML_add_listener)
  next
    case False
    from init_absent[OF this] assms show ?thesis by (auto simp: console_log_def)
  qed
qed

lemma init_returns: "\<exists>pg1. init pg = Inr pg1"
proof (cases "both_present pg")
  case True
  from init_present[OF this] show ?thesis by blast
next
  case False
  from init_absent[OF this] show ?thesis by blast
qed

lemma click_fresh: "fresh pg \<Longrightarrow> click f t pg = Inr pg"
  by (auto simp: click_def fresh_def list_all_length split: option.splits)

lemma clicks_fresh: "fresh pg \<Longrightarrow> clicks f ts pg = Inr pg"
  by (induction ts) (simp_all add: click_fresh)

lemma fresh_console_log: "fresh (console_log s pg) = fresh pg"
  by (simp add: fresh_def console_log_def)

lemma state_of_fresh: "fresh pg \<Longrightarrow> state_of pg = Unbound"
  by (auto simp: state_of_def fresh_def list_all_length split: option.splits)

lemma state_of_bound: "bound_to b out pg \<Longrightarrow> state_of pg = Bound"
  by (auto simp: state_of_def bound_to_def getElementById_def dest: find_id_Some)

lemma session_bound:
  assumes "fresh pg" "both_present pg"
  shows "\<exists>pg' b out. session f pg ts = Inr pg' \<and> bound_to b out pg' \<and>
           (ts \<noteq> [] \<longrightarrow> display pg' = Some (greeting f (last ts)))"
proof -
  from init_bound[OF assms] obtain pg1 b out where 1: "init pg = Inr pg1" "bound_to b out pg1"
    by blast
  from clicks_bound[OF 1(2), of f ts] obtain pg' where
    2: "clicks f ts pg1 = Inr pg'" "bound_to b out pg'"
       "display pg' = (if ts = [] then display pg1 else Some (greeting f (last ts)))"
    by blast
  have "session f pg ts = Inr pg'" by (simp add: session_def 1 2)
  with 2 show ?thesis by auto
qed

lemma shown_session:
  assumes "fresh pg" "both_present pg" "ts \<noteq> []"
  shows "shown (session f pg ts) = Some (greeting f (last ts))"
proof -
  from session_bound[OF assms(1,2), of f ts] assms(3) obtain pg' where
    "session f pg ts = Inr pg'" "display pg' = Some (greeting f (last ts))" by blast
  then show ?thesis by (simp add: shown_def)
qed

lemma greeting_parts:
  "greeting f t = ''<p>'' @ (''Hello from Habit Tracker Pro!'' @ '' Button clicked at '' @ f t) @ ''</p>''"
  by (simp add: greeting_def)

lemma demo_fresh: "fresh demo_page"
  by (simp add: fresh_def demo_page_def)

lemma demo_both: "both_present demo_page"
  by (simp add: both_present_def getElementById_def demo_page_def)

lemma stale_fresh: "fresh stale_page"
  by (simp add: fresh_def stale_page_def)

lemma stale_both: "both_present stale_page"
  by (simp add: both_present_def getElementById_def stale_page_def)

lemma without_output_fresh: "fresh page_without_output"
  by (simp add: fresh_def page_without_output_def)

lemma without_output_absent: "\<not> both_present page_without_output"
  by (simp add: both_present_def getElementById_def page_without_output_def)

lemma half_past_two: "time_of_day 52200 = ''2:30:00 PM''"
  by (simp add: time_of_day_def hour12_def two_digits_def digit_def)

lemma midnight: "time_of_day 0 = ''12:00:00 AM''"
  by (simp add: time_of_day_def hour12_def two_digits_def digit_def)

lemma sublist_inner: "sublist xs (ps @ (xs @ ys) @ ss)"
  using sublist_appendI[of xs ps "ys @ ss"] by simp

section \<open>The claims\<close>

text \<open>
  Where a statement follows a page through its life, the page is taken as the host hands
  it over when \<^verbatim>\<open>DOMContentLoaded\<close> fires (\<open>fresh\<close>): the script has not run yet, so no
  element carries one of its listeners.
\<close>

text \<open>
  C1. When the page has both \<^verbatim>\<open>mainButton\<close> and \<^verbatim>\<open>output\<close> at the time the
  \<^verbatim>\<open>DOMContentLoaded\<close> function runs, one activation of the control leaves the display
  target with a content that contains \<^verbatim>\<open>Hello from Habit Tracker Pro!\<close>, whatever the
  clock reading and whatever the host's formatter returns.
\<close>

theorem one_activation_shows_greeting:
  assumes "fresh pg" and "both_present pg"
  shows "display_contains ''Hello from Habit Tracker Pro!'' (session f pg [t])"
proof -
  have "shown (session f pg [t]) = Some (greeting f t)"
    using shown_session[OF assms, of "[t]" f] by simp
  moreover have "sublist ''Hello from Habit Tracker Pro!'' (greeting f t)"
    unfolding greeting_parts by (rule sublist_inner)
  ultimately show ?thesis by (simp add: display_contains_def)
qed

theorem one_activation_shows_greeting_witness:
  "fresh demo_page \<and> both_present demo_page \<and>
   display_contains ''Hello from Habit Tracker Pro!''
     (session toLocaleTimeString_enUS demo_page [52200000])"
  using demo_fresh demo_both one_activation_shows_greeting[OF demo_fresh demo_both]
  by blast

text \<open>
  C2. After every activation (the one at clock reading \<open>t\<close>, after any earlier ones
  \<open>ts\<close>) the content of the display target is one \<^verbatim>\<open><p>\<close> element whose text is the
  fixed prefix \<^verbatim>\<open>Hello from Habit Tracker Pro! Button clicked at \<close> followed by the string
  the host's formatter returns for \<open>t\<close>. On the sample host, an activation whose clock
  reading falls on 14:30:00 shows a content that contains
  \<^verbatim>\<open>Hello from Habit Tracker Pro! Button clicked at 2:30:00 PM\<close>.
\<close>

theorem activation_writes_paragraph:
  assumes "fresh pg" and "both_present pg"
  shows "shown (session f pg (ts @ [t])) =
           Some (''<p>'' @ ''Hello from Habit Tracker Pro! Button clicked at '' @ f t @ ''</p>'') \<and>
         (seconds_of_day t = 52200 \<longrightarrow>
            display_contains ''Hello from Habit Tracker Pro! Button clicked at 2:30:00 PM''
              (session toLocaleTimeString_enUS pg (ts @ [t])))"
proof
  show "shown (session f pg (ts @ [t])) =
           Some (''<p>'' @ ''Hello from Habit Tracker Pro! Button clicked at '' @ f t @ ''</p>'')"
    using shown_session[OF assms, of "ts @ [t]" f] by (simp add: greeting_def)
next
  show "seconds_of_day t = 52200 \<longrightarrow>
            display_contains ''Hello from Habit Tracker Pro! Button clicked at 2:30:00 PM''
              (session toLocaleTimeString_enUS pg (ts @ [t]))"
  proof
    assume t: "seconds_of_day t = 52200"
    have s: "shown (session toLocaleTimeString_enUS pg (ts @ [t])) =
        Some (greeting toLocaleTimeString_enUS t)"
      using shown_session[OF assms, of "ts @ [t]" toLocaleTimeString_enUS] by simp
    have "greeting toLocaleTimeString_enUS t =
        ''<p>'' @ ''Hello from Habit Tracker Pro! Button clicked at 2:30:00 PM'' @ ''</p>''"
      by (simp add: greeting_def toLocaleTimeString_enUS_def t half_past_two)
    moreover have "sublist ''Hello from Habit Tracker Pro! Button clicked at 2:30:00 PM''
        (''<p>'' @ ''Hello from Habit Tracker Pro! Button clicked at 2:30:00 PM'' @ ''</p>'')"
      by (rule sublist_appendI)
    ultimately show "display_contains ''Hello from Habit Tracker Pro! Button clicked at 2:30:00 PM''
              (session toLocaleTimeString_enUS pg (ts @ [t]))"
      by (simp only: display_contains_def s option.case)
  qed
qed

theorem activation_writes_paragraph_witness:
  "fresh demo_page \<and> both_present demo_page \<and> seconds_of_day 52200000 = 52200 \<and>
   shown (session toLocaleTimeString_enUS demo_page [52200000]) =
     Some ''<p>Hello from Habit Tracker Pro! Button clicked at 2:30:00 PM</p>'' \<and>
   display_contains ''Hello from Habit Tracker Pro! Button clicked at 2:30:00 PM''
     (session toLocaleTimeString_enUS demo_page [52200000])"
proof -
  have s: "seconds_of_day 52200000 = 52200" by (simp add: seconds_of_day_def)
  have f: "toLocaleTimeString_enUS 52200000 = ''2:30:00 PM''"
    by (simp add: toLocaleTimeString_enUS_def s half_past_two)
  from activation_writes_paragraph[OF demo_fresh demo_both, of toLocaleTimeString_enUS "[]" 52200000]
  show ?thesis using demo_fresh demo_both s by (simp add: f)
qed

text \<open>
  C3 reads the message as the greeting \<^verbatim>\<open>Hello from Habit Tracker Pro!\<close> immediately
  followed by the time string. Line 11 puts \<^verbatim>\<open> Button clicked at \<close> between the two: on the
  sample host, after an activation at 14:30:00 the display target holds
  \<^verbatim>\<open><p>Hello from Habit Tracker Pro! Button clicked at 2:30:00 PM</p>\<close>, which does not
  contain \<^verbatim>\<open>Hello from Habit Tracker Pro!2:30:00 PM\<close>.
\<close>

theorem greeting_not_adjacent_to_time:
  "shown (session toLocaleTimeString_enUS demo_page [52200000]) =
     Some ''<p>Hello from Habit Tracker Pro! Button clicked at 2:30:00 PM</p>'' \<and>
   toLocaleTimeString_enUS 52200000 = ''2:30:00 PM'' \<and>
   \<not> display_contains (''Hello from Habit Tracker Pro!'' @ toLocaleTimeString_enUS 52200000)
     (session toLocaleTimeString_enUS demo_page [52200000])"
proof -
  have s: "seconds_of_day 52200000 = 52200" by (simp add: seconds_of_day_def)
  have f: "toLocaleTimeString_enUS 52200000 = ''2:30:00 PM''"
    by (simp add: toLocaleTimeString_enUS_def s half_past_two)
  have d: "shown (session toLocaleTimeString_enUS demo_page [52200000]) =
     Some ''<p>Hello from Habit Tracker Pro! Button clicked at 2:30:00 PM</p>''"
    using shown_session[OF demo_fresh demo_both, of "[52200000]" toLocaleTimeString_enUS]
    by (simp add: greeting_def f)
  have "\<not> sublist ''Hello from Habit Tracker Pro!2:30:00 PM''
     ''<p>Hello from Habit Tracker Pro! Button clicked at 2:30:00 PM</p>''"
    by (simp add: sublist_Cons_right prefix_Cons)
  then show ?thesis by (simp add: d f display_contains_def)
qed

text \<open>
  C3, amended. After every activation the content of the display target contains the
  greeting \<^verbatim>\<open>Hello from Habit Tracker Pro!\<close>, then \<^verbatim>\<open> Button clicked at \<close>, then the time
  string, with nothing else between them.
\<close>

theorem time_follows_button_clicked_at:
  assumes "fresh pg" and "both_present pg"
  shows "display_contains
           (''Hello from Habit Tracker Pro!'' @ '' Button clicked at '' @ f t)
           (session f pg (ts @ [t]))"
proof -
  have "shown (session f pg (ts @ [t])) = Some (greeting f t)"
    using shown_session[OF assms, of "ts @ [t]" f] by simp
  moreover have
    "sublist (''Hello from Habit Tracker Pro!'' @ '' Button clicked at '' @ f t) (greeting f t)"
    unfolding greeting_parts by (rule sublist_appendI)
  ultimately show ?thesis by (simp only: display_contains_def option.case)
qed

theorem time_follows_button_clicked_at_witness:
  "fresh demo_page \<and> both_present demo_page \<and>
   display_contains
     (''Hello from Habit Tracker Pro!'' @ '' Button clicked at '' @ toLocaleTimeString_enUS 52200000)
     (session toLocaleTimeString_enUS demo_page ([0, 1000] @ [52200000]))"
  using demo_fresh demo_both
    time_follows_button_clicked_at[OF demo_fresh demo_both, of toLocaleTimeString_enUS 52200000 "[0, 1000]"]
  by blast

text \<open>
  C4. After \<open>N \<ge> 1\<close> activations the display target holds exactly what the last
  activation wrote: the markup for the last clock reading, the same content a single
  activation at that reading gives. Nothing of the earlier activations remains.
\<close>

theorem last_activation_wins:
  assumes "fresh pg" and "both_present pg" and "ts \<noteq> []"
  shows "shown (session f pg ts) = Some (greeting f (last ts)) \<and>
         shown (session f pg ts) = shown (session f pg [last ts])"
  using shown_session[OF assms, of f] shown_session[OF assms(1,2), of "[last ts]" f] by simp

theorem last_activation_wins_witness:
  "fresh demo_page \<and> both_present demo_page \<and> [0, 1000, 52200000] \<noteq> ([] :: int list) \<and>
   shown (session toLocaleTimeString_enUS demo_page [0, 1000, 52200000]) =
     Some (greeting toLocaleTimeString_enUS 52200000) \<and>
   shown (session toLocaleTimeString_enUS demo_page [0, 1000, 52200000]) =
     shown (session toLocaleTimeString_enUS demo_page [52200000])"
proof -
  have n: "[0, 1000, 52200000] \<noteq> ([] :: int list)" by simp
  have l: "last [0, 1000, 52200000] = (52200000 :: int)" by simp
  show ?thesis
    using demo_fresh demo_both n
      last_activation_wins[OF demo_fresh demo_both n, of toLocaleTimeString_enUS, unfolded l]
    by blast
qed

text \<open>
  C5. When the control or the display target is missing, the \<^verbatim>\<open>DOMContentLoaded\<close> function
  returns normally and the elements, their listeners included, are what they were: no
  handler is attached. On a page that had no listener before, every later sequence of
  activations returns normally too and leaves the page as the function left it, so no
  handler ran; this covers the page that has the control and lacks only the display
  target.
\<close>

theorem missing_element_inert:
  assumes "\<not> both_present pg"
  shows "init pg = Inr (console_log ''Habit Tracker Pro loaded successfully!'' pg) \<and>
         elements (console_log ''Habit Tracker Pro loaded successfully!'' pg) = elements pg \<and>
         (fresh pg \<longrightarrow>
            session f pg ts = Inr (console_log ''Habit Tracker Pro loaded successfully!'' pg))"
proof (intro conjI impI)
  show i: "init pg = Inr (console_log ''Habit Tracker Pro loaded successfully!'' pg)"
    using assms by (rule init_absent)
  show "elements (console_log ''Habit Tracker Pro loaded successfully!'' pg) = elements pg"
    by (simp add: console_log_def)
  assume "fresh pg"
  then have "fresh (console_log ''Habit Tracker Pro loaded successfully!'' pg)"
    by (simp add: fresh_console_log)
  then show "session f pg ts = Inr (console_log ''Habit Tracker Pro loaded successfully!'' pg)"
    by (simp add: session_def i clicks_fresh)
qed

theorem missing_element_inert_witness:
  "\<not> both_present page_without_output \<and> fresh page_without_output \<and>
   init page_without_output =
     Inr (console_log ''Habit Tracker Pro loaded successfully!'' page_without_output) \<and>
   session toLocaleTimeString_enUS page_without_output [0, 52200000] =
     Inr (console_log ''Habit Tracker Pro loaded successfully!'' page_without_output)"
  using without_output_absent without_output_fresh
    missing_element_inert[OF without_output_absent, of toLocaleTimeString_enUS "[0, 52200000]"]
  by blast

text \<open>
  C6 asks for different time strings whenever two activations are at least one second
  apart. A time-of-day string repeats every 24 hours: the sample host has second-level
  resolution and prints \<^verbatim>\<open>12:00:00 AM\<close> at the clock readings 0 and 86400000, so the second
  activation, a day after the first, leaves the display target with the same content.
\<close>

theorem same_time_next_day:
  "second_resolution toLocaleTimeString_enUS \<and> fresh demo_page \<and> both_present demo_page \<and>
   (1000 :: int) \<le> 86400000 - 0 \<and>
   toLocaleTimeString_enUS 0 = ''12:00:00 AM'' \<and>
   toLocaleTimeString_enUS 86400000 = ''12:00:00 AM'' \<and>
   shown (session toLocaleTimeString_enUS demo_page [0]) =
     shown (session toLocaleTimeString_enUS demo_page [0, 86400000])"
proof -
  have z: "seconds_of_day 0 = 0" and d: "seconds_of_day 86400000 = 0"
    by (simp_all add: seconds_of_day_def)
  have f0: "toLocaleTimeString_enUS 0 = ''12:00:00 AM''"
    by (simp add: toLocaleTimeString_enUS_def z midnight)
  have f1: "toLocaleTimeString_enUS 86400000 = ''12:00:00 AM''"
    by (simp add: toLocaleTimeString_enUS_def d midnight)
  have 1: "shown (session toLocaleTimeString_enUS demo_page [0]) =
      Some (greeting toLocaleTimeString_enUS 0)"
    using shown_session[OF demo_fresh demo_both, of "[0]" toLocaleTimeString_enUS] by simp
  have 2: "shown (session toLocaleTimeString_enUS demo_page [0, 86400000]) =
      Some (greeting toLocaleTimeString_enUS 86400000)"
    using shown_session[OF demo_fresh demo_both, of "[0, 86400000]" toLocaleTimeString_enUS] by simp
  have "shown (session toLocaleTimeString_enUS demo_page [0]) =
     shown (session toLocaleTimeString_enUS demo_page [0, 86400000])"
    by (simp add: 1 2 greeting_def f0 f1)
  with second_resolution_enUS demo_fresh demo_both f0 f1 show ?thesis by simp
qed

text \<open>
  C6, amended. Let the formatter have second-level resolution. Two activations of one
  page whose clock readings differ by at least one second and by at most 23 hours, 59
  minutes and 59 seconds get different time strings, and the display target holds
  different contents after them.
\<close>

theorem seconds_apart_differ:
  assumes "second_resolution f" and "fresh pg" and "both_present pg"
    and "1000 \<le> t2 - t1" and "t2 - t1 \<le> 86399000"
  shows "f t1 \<noteq> f t2 \<and>
         shown (session f pg (ts @ [t1])) \<noteq> shown (session f pg (ts @ [t1] @ ts' @ [t2]))"
proof -
  have "seconds_of_day t1 \<noteq> seconds_of_day t2"
    using assms(4,5) by (rule seconds_of_day_apart)
  moreover from assms(1) have "f t1 = f t2 \<longrightarrow> seconds_of_day t1 = seconds_of_day t2"
    unfolding second_resolution_def by (elim allE)
  ultimately have d: "f t1 \<noteq> f t2" by blast
  have 1: "shown (session f pg (ts @ [t1])) = Some (greeting f t1)"
    using shown_session[OF assms(2,3), of "ts @ [t1]" f] by simp
  have 2: "shown (session f pg (ts @ [t1] @ ts' @ [t2])) = Some (greeting f t2)"
    using shown_session[OF assms(2,3), of "ts @ [t1] @ ts' @ [t2]" f] by simp
  have "greeting f t1 \<noteq> greeting f t2" using d by (simp add: greeting_def)
  with d show ?thesis by (simp only: 1 2 option.inject simp_thms)
qed

theorem seconds_apart_differ_witness:
  "second_resolution toLocaleTimeString_enUS \<and> fresh demo_page \<and> both_present demo_page \<and>
   (1000 :: int) \<le> 1000 - 0 \<and> (1000 :: int) - 0 \<le> 86399000 \<and>
   toLocaleTimeString_enUS 0 \<noteq> toLocaleTimeString_enUS 1000 \<and>
   shown (session toLocaleTimeString_enUS demo_page ([] @ [0])) \<noteq>
     shown (session toLocaleTimeString_enUS demo_page ([] @ [0] @ [] @ [1000]))"
proof -
  have a: "(1000 :: int) \<le> 1000 - 0" and b: "(1000 :: int) - 0 \<le> 86399000" by simp_all
  show ?thesis
    using second_resolution_enUS demo_fresh demo_both a b
      seconds_apart_differ[OF second_resolution_enUS demo_fresh demo_both a b, of "[]" "[]"]
    by blast
qed

text \<open>
  C7. The \<^verbatim>\<open>DOMContentLoaded\<close> function returns normally on every page. It adds exactly one
  line to the console, \<^verbatim>\<open>Habit Tracker Pro loaded successfully!\<close>, and when a required
  element is missing that line is all it does: the elements and their listeners are
  unchanged.
\<close>

theorem init_logs_once_never_raises:
  "\<exists>pg1. init pg = Inr pg1 \<and>
      console pg1 = console pg @ [''Habit Tracker Pro loaded successfully!''] \<and>
      (\<not> both_present pg \<longrightarrow> elements pg1 = elements pg)"
proof -
  from init_returns obtain pg1 where i: "init pg = Inr pg1" by blast
  have "console pg1 = console pg @ [''Habit Tracker Pro loaded successfully!'']"
    using i by (rule init_frame(1))
  moreover have "elements pg1 = elements pg" if "\<not> both_present pg"
    using init_absent[OF that] i by (simp add: console_log_def)
  ultimately show ?thesis using i by blast
qed

theorem init_logs_once_never_raises_witness:
  "\<not> both_present page_without_output \<and>
   (\<exists>pg1. init page_without_output = Inr pg1 \<and>
      console pg1 = console page_without_output @ [''Habit Tracker Pro loaded successfully!''] \<and>
      elements pg1 = elements page_without_output)"
  using without_output_absent init_logs_once_never_raises[of page_without_output]
  by blast

text \<open>
  C8. A page is \<open>Unbound\<close> before the \<^verbatim>\<open>DOMContentLoaded\<close> function runs. After it the page
  is \<open>Bound\<close> exactly when both required elements exist, and after any sequence of
  activations the state is still the one the function left: an \<open>Unbound\<close> page never
  becomes \<open>Bound\<close> later and a \<open>Bound\<close> page never goes back to \<open>Unbound\<close>.
\<close>

theorem binds_once_at_load:
  assumes "fresh pg"
  shows "state_of pg = Unbound \<and>
         (\<exists>pg1. init pg = Inr pg1 \<and>
            (state_of pg1 = Bound \<longleftrightarrow> both_present pg) \<and>
            (\<forall>ts. \<exists>pgn. clicks f ts pg1 = Inr pgn \<and> state_of pgn = state_of pg1))"
proof (cases "both_present pg")
  case True
  from init_bound[OF assms True] obtain pg1 b out where
    1: "init pg = Inr pg1" "bound_to b out pg1" by blast
  have "\<exists>pgn. clicks f ts pg1 = Inr pgn \<and> state_of pgn = state_of pg1" for ts
  proof -
    from clicks_bound[OF 1(2), of f ts] obtain pgn where
      "clicks f ts pg1 = Inr pgn" "bound_to b out pgn" by blast
    then show ?thesis using 1(2) by (auto simp: state_of_bound)
  qed
  with 1 True assms show ?thesis by (auto simp: state_of_bound state_of_fresh)
next
  case False
  let ?pg1 = "console_log ''Habit Tracker Pro loaded successfully!'' pg"
  have i: "init pg = Inr ?pg1" using False by (rule init_absent)
  have f: "fresh ?pg1" using assms by (simp add: fresh_console_log)
  have "\<exists>pgn. clicks f ts ?pg1 = Inr pgn \<and> state_of pgn = state_of ?pg1" for ts
    using f by (simp add: clicks_fresh)
  with i False assms f show ?thesis by (auto simp: state_of_fresh)
qed

theorem binds_once_at_load_witness:
  "fresh demo_page \<and> both_present demo_page \<and> state_of demo_page = Unbound \<and>
   (\<exists>pg1. init demo_page = Inr pg1 \<and> state_of pg1 = Bound \<and>
      (\<exists>pgn. clicks toLocaleTimeString_enUS [0, 1000] pg1 = Inr pgn \<and> state_of pgn = Bound))"
proof -
  from binds_once_at_load[OF demo_fresh, of toLocaleTimeString_enUS] obtain pg1 where
    1: "state_of demo_page = Unbound" "init demo_page = Inr pg1"
       "state_of pg1 = Bound \<longleftrightarrow> both_present demo_page"
       "\<forall>ts. \<exists>pgn. clicks toLocaleTimeString_enUS ts pg1 = Inr pgn \<and> state_of pgn = state_of pg1"
    by blast
  from 1(3) demo_both have b: "state_of pg1 = Bound" by simp
  from 1(4) obtain pgn where
    "clicks toLocaleTimeString_enUS [0, 1000] pg1 = Inr pgn" "state_of pgn = state_of pg1" by blast
  with 1 b demo_fresh demo_both show ?thesis by auto
qed

text \<open>
  C9. The content after an activation is the markup for its clock reading and nothing
  else: two activations at the same reading show the same content, whatever activations
  came before each and whatever the two pages held at load.
\<close>

theorem activation_depends_on_clock_only:
  assumes "fresh pg" and "both_present pg" and "fresh pg'" and "both_present pg'"
  shows "shown (session f pg (ts @ [t])) = shown (session f pg' (ts' @ [t])) \<and>
         shown (session f pg (ts @ [t])) = Some (greeting f t)"
  using shown_session[OF assms(1,2), of "ts @ [t]" f] shown_session[OF assms(3,4), of "ts' @ [t]" f]
  by simp

theorem activation_depends_on_clock_only_witness:
  "fresh demo_page \<and> both_present demo_page \<and> fresh stale_page \<and> both_present stale_page \<and>
   shown (session toLocaleTimeString_enUS demo_page ([] @ [52200000])) =
     shown (session toLocaleTimeString_enUS stale_page ([0, 1000, 2000] @ [52200000])) \<and>
   shown (session toLocaleTimeString_enUS demo_page ([] @ [52200000])) =
     Some (greeting toLocaleTimeString_enUS 52200000)"
  using demo_fresh demo_both stale_fresh stale_both
    activation_depends_on_clock_only[OF demo_fresh demo_both stale_fresh stale_both,
      of toLocaleTimeString_enUS "[]" 52200000 "[0, 1000, 2000]"]
  by blast

text \<open>
  C10. When both elements are present, the \<^verbatim>\<open>DOMContentLoaded\<close> function takes the page
  to \<open>Bound\<close> and writes to no \<^verbatim>\<open>innerHTML\<close>: the display target shows what it showed
  before, and a session without activations ends in that same page.
\<close>

theorem init_leaves_display:
  assumes "both_present pg"
  shows "\<exists>pg1. init pg = Inr pg1 \<and> state_of pg1 = Bound \<and> display pg1 = display pg \<and>
           map innerHTML (elements pg1) = map innerHTML (elements pg) \<and>
           session f pg [] = Inr pg1"
proof -
  from init_present[OF assms] obtain b out pg1 where
    b: "getElementById pg ''mainButton'' = Some b" and i: "init pg = Inr pg1"
    and pg1: "pg1 = pg\<lparr>console := console pg @ [''Habit Tracker Pro loaded successfully!''],
       elements := update_element b (\<lambda>e. e\<lparr>listeners := listeners e @ [ClickGreeter (Some out)]\<rparr>) (elements pg)\<rparr>"
    by blast
  from b have bl: "b < length (elements pg)" by (simp add: getElementById_def find_id_Some)
  have g: "getElementById pg1 ''mainButton'' = Some b"
    unfolding getElementById_def using b init_frame(2)[OF i]
    by (simp add: getElementById_def find_id_cong[of "elements pg1" "elements pg"])
  have "state_of pg1 = Bound"
    using bl by (simp add: state_of_def g) (simp add: pg1 nth_update_element)
  moreover have "display pg1 = display pg"
    using init_frame(2,3)[OF i] by (rule display_cong)
  moreover have "session f pg [] = Inr pg1" by (simp add: session_def i)
  ultimately show ?thesis using i init_frame(3)[OF i] by blast
qed

theorem init_leaves_display_witness:
  "both_present stale_page \<and> display stale_page = Some ''<p>stale</p>'' \<and>
   (\<exists>pg1. init stale_page = Inr pg1 \<and> state_of pg1 = Bound \<and> display pg1 = Some ''<p>stale</p>'' \<and>
      session toLocaleTimeString_enUS stale_page [] = Inr pg1)"
proof -
  have d: "display stale_page = Some ''<p>stale</p>''"
    by (simp add: display_def getElementById_def stale_page_def)
  from init_leaves_display[OF stale_both, of toLocaleTimeString_enUS] obtain pg1 where
    "init stale_page = Inr pg1" "state_of pg1 = Bound" "display pg1 = display stale_page"
    "session toLocaleTimeString_enUS stale_page [] = Inr pg1" by blast
  with d stale_both show ?thesis by auto
qed

end
